theory Spec2Isabelle
  imports Main "HOL-Library.Word"
begin

unbundle bit_operations_syntax

section \<open>Signals of the design\<close>

text \<open>
  The design under \<^verbatim>\<open>valentyusb/usbcore/cpu/eptri.py\<close> is a synchronous circuit written
  in Migen: \<^verbatim>\<open>comb\<close> statements are combinational logic, \<^verbatim>\<open>sync\<close> statements are register
  updates taken at the clock edge from the values of the running cycle.  All handlers are
  renamed into the one clock domain \<^verbatim>\<open>usb_12\<close>, so one cycle of the design is one call of
  \<open>step\<close> below: the registers are the state, the signals of the transfer core, of the
  register bus and of the debug bridge are the inputs of the cycle.
\<close>

text \<open>
  Modelled from the spec: the enumeration \<^verbatim>\<open>PID\<close> of token kinds (the module
  \<^verbatim>\<open>usbcore/pid.py\<close> is not part of the sources).  The spec gives
  \<^verbatim>\<open>token_type \<in> {SETUP, IN, OUT, SOF}\<close>; the docstring of \<^verbatim>\<open>eptri.py\<close> lists the same four
  kinds.  The design compares \<^verbatim>\<open>usb_core.tok\<close> with \<^verbatim>\<open>PID.SETUP\<close>, \<^verbatim>\<open>PID.IN\<close> and \<^verbatim>\<open>PID.OUT\<close>
  only.
\<close>

datatype PID = PID_OUT | PID_SOF | PID_IN | PID_SETUP

text \<open>The states of the FSM \<^verbatim>\<open>stage\<close>, in the order of their \<^verbatim>\<open>stage_num\<close>.\<close>

datatype stage_t =
    IDLE | CHECK_TOK | DEBUG | SETUP | CONTROL_IN | CONTROL_OUT
  | WAIT_CONTROL_ACK_IN | WAIT_CONTROL_ACK_OUT | IN | OUT | WAIT_DONE

text \<open>
  Signals read from the transfer core \<^verbatim>\<open>usb_core\<close> (a \<^verbatim>\<open>UsbTransfer\<close>) and from its
  \<^verbatim>\<open>iobuf\<close>; the core is outside the sources, its outputs are inputs of every cycle.
\<close>

record usb_core_signals =
  uc_tok :: PID
  uc_endp :: "4 word"
  uc_idle :: bool
  uc_start :: bool
  uc_setup :: bool
  uc_commit :: bool
  uc_end :: bool
  uc_data_end :: bool
  uc_error :: bool
  uc_usb_reset :: bool
  uc_data_recv_payload :: "8 word"
  uc_data_recv_put :: bool
  uc_data_send_get :: bool
  usb_pullup :: bool

text \<open>
  The CSR registers written by the CPU: for a \<^verbatim>\<open>CSRStorage\<close> the field \<^verbatim>\<open>storage\<close> and the
  write strobe \<^verbatim>\<open>re\<close>, which is high in the cycle in which \<^verbatim>\<open>storage\<close> shows the value
  just written.
\<close>

record csr_signals = usb_core_signals +
  enable_out0 :: "8 word"
  enable_out1 :: "8 word"
  enable_in0 :: "8 word"
  enable_in1 :: "8 word"
  address_storage :: "7 word"
  setup_ctrl_storage :: "1 word"
  setup_ctrl_re :: bool
  in_data_storage :: "8 word"
  in_data_re :: bool
  in_ctrl_storage :: "5 word"
  in_ctrl_re :: bool
  out_ctrl_storage :: "2 word"
  out_ctrl_re :: bool

text \<open>
  The constructor argument \<^verbatim>\<open>debug\<close> and the signals of the \<^verbatim>\<open>USBWishboneBridge\<close> that the
  stage \<^verbatim>\<open>DEBUG\<close> reads when \<^verbatim>\<open>debug\<close> is set.
\<close>

record inputs = csr_signals +
  debug :: bool
  n_debug_in_progress :: bool
  sink_data :: "8 word"
  sink_valid :: bool
  send_ack :: bool

text \<open>The registers of \<^verbatim>\<open>TriEndpointInterface\<close> and of its three handlers.\<close>

record state =
  stage :: stage_t
  tok_waits :: "8 word"
  usb_core_addr :: "7 word"
  invalid_states :: "8 word"
  setup_data_byte :: "4 word"
  setup_is_in :: bool
  setup_data_stage :: bool
  error_count :: "8 word"
  sh_check_reset :: bool
  sh_buf_reset :: bool
  sh_data_bytes :: "3 word"
  sh_have_data_stage :: bool
  sh_epno :: "4 word"
  sh_buf :: "8 word list"
  ih_dtbs :: "16 word"
  ih_queued :: bool
  ih_buf :: "8 word list"
  oh_have_data :: bool
  oh_epno :: "4 word"
  oh_is_idle :: bool
  oh_buf :: "8 word list"


section \<open>FIFOs\<close>

text \<open>
  Modelled from the spec: the byte FIFOs (\<^verbatim>\<open>migen.genlib.fifo.SyncFIFOBuffered\<close> is a library
  class outside the sources).  The spec describes them as bounded single-producer
  single-consumer queues: the content is the list of unread bytes, oldest first;
  \<^verbatim>\<open>readable\<close> says that it is not empty, \<^verbatim>\<open>dout\<close> is its head, \<^verbatim>\<open>re\<close> pops the head,
  \<^verbatim>\<open>we\<close> appends \<^verbatim>\<open>din\<close> while the queue is \<^verbatim>\<open>writable\<close> (a write to a full queue is
  dropped), and the \<^verbatim>\<open>reset\<close> of a \<^verbatim>\<open>ResetInserter\<close> empties the queue, whatever else
  happens in that cycle.
\<close>

definition fifo_readable :: "8 word list \<Rightarrow> bool" where
  "fifo_readable q = (q \<noteq> [])"

definition fifo_writable :: "nat \<Rightarrow> 8 word list \<Rightarrow> bool" where
  "fifo_writable depth q = (length q < depth)"

definition fifo_dout :: "8 word list \<Rightarrow> 8 word" where
  "fifo_dout q = (case q of [] \<Rightarrow> 0 | x # _ \<Rightarrow> x)"

definition fifo_step ::
  "nat \<Rightarrow> bool \<Rightarrow> bool \<Rightarrow> 8 word \<Rightarrow> bool \<Rightarrow> 8 word list \<Rightarrow> 8 word list" where
  "fifo_step depth reset we din re q =
     (if reset then []
      else (let q1 = (if re \<and> fifo_readable q then tl q else q)
            in if we \<and> fifo_writable depth q then q1 @ [din] else q1))"

section \<open>Combinational signals outside the FSM\<close>

text \<open>
  \<^verbatim>\<open>eps_idx = Cat(usb_core.endp, usb_core.tok == PID.IN)\<close>: \<^verbatim>\<open>Cat\<close> puts its first argument
  into the low bits.
\<close>

definition eps_idx :: "inputs \<Rightarrow> 5 word" where
  "eps_idx i = ucast (uc_endp i) OR push_bit 4 (of_bool (uc_tok i = PID_IN))"

text \<open>\<^verbatim>\<open>enable = Cat(enable_out0, enable_out1, enable_in0, enable_in1)\<close>.\<close>

definition enable :: "inputs \<Rightarrow> 32 word" where
  "enable i = ucast (enable_out0 i) OR push_bit 8 (ucast (enable_out1 i))
              OR push_bit 16 (ucast (enable_in0 i)) OR push_bit 24 (ucast (enable_in1 i))"

text \<open>
  \<^verbatim>\<open>should_stall.eq(~(enable >> eps_idx))\<close>: the one-bit signal takes bit 0 of the
  32-bit right-hand side.
\<close>

definition should_stall :: "inputs \<Rightarrow> bool" where
  "should_stall i = bit (NOT (drop_bit (unat (eps_idx i)) (enable i))) 0"

text \<open>\<^verbatim>\<open>debug_packet_detected\<close> is driven only when \<^verbatim>\<open>debug\<close> is set, and is 0 otherwise.\<close>

definition debug_packet_detected :: "inputs \<Rightarrow> bool" where
  "debug_packet_detected i = (if debug i then \<not> n_debug_in_progress i else False)"

text \<open>\<^verbatim>\<open>SetupHandler\<close>: \<^verbatim>\<open>empty = ~buf.readable\<close>.\<close>

definition setup_handler_empty :: "state \<Rightarrow> bool" where
  "setup_handler_empty s = (\<not> fifo_readable (sh_buf s))"

text \<open>\<^verbatim>\<open>InHandler\<close>: \<^verbatim>\<open>epno = ctrl.storage[0:4]\<close>, \<^verbatim>\<open>reset_fifo = ctrl.storage[4]\<close>.\<close>

definition in_epno :: "inputs \<Rightarrow> 4 word" where
  "in_epno i = ucast (in_ctrl_storage i)"

definition in_reset_fifo :: "inputs \<Rightarrow> bool" where
  "in_reset_fifo i = bit (in_ctrl_storage i) 4"

definition in_handler_response :: "state \<Rightarrow> inputs \<Rightarrow> bool" where
  "in_handler_response s i = (if uc_endp i = in_epno i then ih_queued s else False)"

text \<open>\<^verbatim>\<open>self.dtb.eq(dtbs >> usb_core.endp)\<close>, bit 0 of the shifted vector.\<close>

definition in_handler_dtb :: "state \<Rightarrow> inputs \<Rightarrow> bool" where
  "in_handler_dtb s i = bit (drop_bit (unat (uc_endp i)) (ih_dtbs s)) 0"

definition in_handler_data_out :: "state \<Rightarrow> 8 word" where
  "in_handler_data_out s = fifo_dout (ih_buf s)"

definition in_handler_data_out_have :: "state \<Rightarrow> bool" where
  "in_handler_data_out_have s = fifo_readable (ih_buf s)"

text \<open>\<^verbatim>\<open>OutHandler\<close>: \<^verbatim>\<open>response = have_data & ctrl.storage[1]\<close>.\<close>

definition out_handler_response :: "state \<Rightarrow> inputs \<Rightarrow> bool" where
  "out_handler_response s i = (oh_have_data s \<and> bit (out_ctrl_storage i) 1)"

section \<open>The FSM \<open>stage\<close>\<close>

text \<open>
  The signals that the actions of the FSM drive.  A combinational signal that no executed
  statement assigns has its reset value 0; where several statements assign it, the last
  one in the order of the statements wins.  \<open>next_state\<close> starts as the current state,
  the two \<^verbatim>\<open>NextValue\<close> targets are \<open>None\<close> when not assigned.  The three \<^verbatim>\<open>trigger\<close>
  signals are also assigned by their handlers (whose statements come before those of the
  FSM, a submodule declared after the handlers): \<open>None\<close> says that the FSM leaves the
  handler's value in place.
\<close>

record outs =
  stage_num :: "8 word"
  next_state :: stage_t
  next_usb_core_addr :: "7 word option"
  next_tok_waits :: "8 word option"
  usb_core_sta :: bool
  usb_core_arm :: bool
  usb_core_dtb :: bool
  usb_core_data_send_have :: bool
  usb_core_data_send_payload :: "8 word"
  setup_data_byte_rst :: bool
  setup_data_byte_ce :: bool
  invalid_state_ce :: bool
  setup_handler_data_recv_payload :: "8 word"
  setup_handler_data_recv_put :: bool
  setup_handler_trigger :: "bool option"
  in_handler_dtb_reset :: bool
  in_handler_data_out_advance :: bool
  in_handler_trigger :: "bool option"
  out_handler_data_recv_payload :: "8 word"
  out_handler_data_recv_put :: bool
  out_handler_ctrl_response :: bool
  out_handler_trigger :: "bool option"

definition outs_default :: "state \<Rightarrow> outs" where
  "outs_default s =
     \<lparr> stage_num = 0, next_state = stage s, next_usb_core_addr = None, next_tok_waits = None,
       usb_core_sta = False, usb_core_arm = False, usb_core_dtb = False,
       usb_core_data_send_have = False, usb_core_data_send_payload = 0,
       setup_data_byte_rst = False, setup_data_byte_ce = False, invalid_state_ce = False,
       setup_handler_data_recv_payload = 0, setup_handler_data_recv_put = False,
       setup_handler_trigger = None,
       in_handler_dtb_reset = False, in_handler_data_out_advance = False,
       in_handler_trigger = None,
       out_handler_data_recv_payload = 0, out_handler_data_recv_put = False,
       out_handler_ctrl_response = False, out_handler_trigger = None \<rparr>"

definition act_IDLE :: "state \<Rightarrow> inputs \<Rightarrow> outs \<Rightarrow> outs" where
  "act_IDLE s i r0 =
     (let r = r0\<lparr> stage_num := 0,
                  next_usb_core_addr := Some (address_storage i),
                  setup_data_byte_rst := True \<rparr>
      in if uc_start i then r\<lparr> next_state := CHECK_TOK \<rparr> else r)"

definition act_CHECK_TOK :: "state \<Rightarrow> inputs \<Rightarrow> outs \<Rightarrow> outs" where
  "act_CHECK_TOK s i r0 =
     (let r = r0\<lparr> stage_num := 1, next_tok_waits := Some (tok_waits s + 1) \<rparr>
      in if uc_idle i then r\<lparr> next_state := IDLE \<rparr>
         else if uc_tok i = PID_SETUP then
           r\<lparr> next_state := SETUP, usb_core_sta := False, usb_core_arm := True \<rparr>
         else if uc_tok i = PID_IN then
           r\<lparr> next_state := IN,
              usb_core_sta := should_stall i,
              usb_core_arm := (in_handler_response s i \<or> should_stall i) \<rparr>
         else if uc_tok i = PID_OUT then
           r\<lparr> next_state := OUT,
              usb_core_sta := should_stall i,
              usb_core_arm := (out_handler_response s i \<or> should_stall i) \<rparr>
         else r\<lparr> next_state := IDLE \<rparr>)"

definition act_DEBUG :: "state \<Rightarrow> inputs \<Rightarrow> outs \<Rightarrow> outs" where
  "act_DEBUG s i r0 =
     (if debug i then
        (let r = r0\<lparr> stage_num := 2,
                     usb_core_data_send_payload := sink_data i,
                     usb_core_data_send_have := sink_valid i,
                     usb_core_sta := False \<rparr>;
             r = (if uc_endp i = 0 then r\<lparr> usb_core_arm := (send_ack i \<or> sink_valid i) \<rparr>
                  else r\<lparr> usb_core_arm := False \<rparr>);
             r = r\<lparr> usb_core_dtb := True \<rparr>
         in if \<not> debug_packet_detected i then r\<lparr> next_state := IDLE \<rparr> else r)
      else r0\<lparr> next_state := IDLE \<rparr>)"

definition act_SETUP :: "state \<Rightarrow> inputs \<Rightarrow> outs \<Rightarrow> outs" where
  "act_SETUP s i r0 =
     (let r = r0\<lparr> stage_num := 3,
                  setup_handler_data_recv_payload := uc_data_recv_payload i,
                  setup_handler_data_recv_put := uc_data_recv_put i,
                  in_handler_dtb_reset := True,
                  usb_core_sta := False,
                  usb_core_arm := True,
                  setup_handler_trigger := Some (uc_commit i),
                  setup_data_byte_ce := uc_data_recv_put i \<rparr>;
          r = (if debug_packet_detected i then r\<lparr> next_state := DEBUG \<rparr> else r)
      in if uc_setup i then
           (if setup_is_in s then
              (if setup_data_stage s then
                 r\<lparr> next_state := CONTROL_IN,
                    usb_core_sta := (\<not> out_handler_response s i \<and> should_stall i),
                    usb_core_arm := (in_handler_response s i \<or> should_stall i) \<rparr>
               else r\<lparr> next_state := WAIT_CONTROL_ACK_IN \<rparr>)
            else
              (if setup_data_stage s then
                 r\<lparr> next_state := CONTROL_OUT,
                    usb_core_sta := (\<not> out_handler_response s i \<and> should_stall i),
                    usb_core_arm := (out_handler_response s i \<or> should_stall i) \<rparr>
               else r\<lparr> next_state := WAIT_CONTROL_ACK_OUT \<rparr>))
         else if uc_end i then r\<lparr> invalid_state_ce := True, next_state := IDLE \<rparr>
         else r)"

definition act_CONTROL_IN :: "state \<Rightarrow> inputs \<Rightarrow> outs \<Rightarrow> outs" where
  "act_CONTROL_IN s i r0 =
     (let r = r0\<lparr> stage_num := 4 \<rparr>
      in if uc_endp i = 0 then
           (if uc_tok i = PID_IN then
              r\<lparr> usb_core_data_send_have := in_handler_data_out_have s,
                 usb_core_data_send_payload := in_handler_data_out s,
                 in_handler_data_out_advance := uc_data_send_get i,
                 usb_core_sta := should_stall i,
                 usb_core_arm :=
                   (should_stall i \<or> (setup_handler_empty s \<and> in_handler_response s i)),
                 usb_core_dtb := in_handler_dtb s i,
                 in_handler_trigger := Some (uc_commit i) \<rparr>
            else if uc_tok i = PID_OUT then
              r\<lparr> usb_core_sta := False,
                 usb_core_arm := True,
                 out_handler_ctrl_response := True,
                 next_state := WAIT_DONE \<rparr>
            else r)
         else r)"

definition act_CONTROL_OUT :: "state \<Rightarrow> inputs \<Rightarrow> outs \<Rightarrow> outs" where
  "act_CONTROL_OUT s i r0 =
     (let r = r0\<lparr> stage_num := 5 \<rparr>
      in if uc_endp i = 0 then
           (if uc_tok i = PID_OUT then
              r\<lparr> out_handler_data_recv_payload := uc_data_recv_payload i,
                 out_handler_data_recv_put := uc_data_recv_put i,
                 usb_core_sta := should_stall i,
                 usb_core_arm :=
                   (should_stall i \<or> (setup_handler_empty s \<and> out_handler_response s i)),
                 out_handler_trigger := Some (uc_commit i) \<rparr>
            else if uc_tok i = PID_IN then
              r\<lparr> usb_core_sta := False,
                 usb_core_arm := setup_handler_empty s,
                 next_state := WAIT_DONE \<rparr>
            else r)
         else r)"

definition act_WAIT_CONTROL_ACK_IN :: "state \<Rightarrow> inputs \<Rightarrow> outs \<Rightarrow> outs" where
  "act_WAIT_CONTROL_ACK_IN s i r0 =
     (let r = r0\<lparr> stage_num := 6,
                  usb_core_sta := False,
                  usb_core_arm := setup_handler_empty s,
                  usb_core_dtb := True \<rparr>
      in if uc_end i \<and> setup_handler_empty s then r\<lparr> next_state := IDLE \<rparr> else r)"

definition act_WAIT_CONTROL_ACK_OUT :: "state \<Rightarrow> inputs \<Rightarrow> outs \<Rightarrow> outs" where
  "act_WAIT_CONTROL_ACK_OUT s i r0 =
     (let r = r0\<lparr> stage_num := 7,
                  usb_core_sta := False,
                  usb_core_arm := setup_handler_empty s,
                  usb_core_dtb := True \<rparr>
      in if uc_data_end i \<and> setup_handler_empty s then r\<lparr> next_state := IDLE \<rparr> else r)"

definition act_IN :: "state \<Rightarrow> inputs \<Rightarrow> outs \<Rightarrow> outs" where
  "act_IN s i r0 =
     (let r = r0\<lparr> stage_num := 8,
                  usb_core_data_send_have := in_handler_data_out_have s,
                  usb_core_data_send_payload := in_handler_data_out s,
                  in_handler_data_out_advance := uc_data_send_get i,
                  usb_core_sta := should_stall i,
                  usb_core_arm := (in_handler_response s i \<or> should_stall i),
                  usb_core_dtb := in_handler_dtb s i,
                  in_handler_trigger := Some (uc_commit i) \<rparr>
      in if uc_end i then r\<lparr> next_state := IDLE \<rparr> else r)"

definition act_OUT :: "state \<Rightarrow> inputs \<Rightarrow> outs \<Rightarrow> outs" where
  "act_OUT s i r0 =
     (let r = r0\<lparr> stage_num := 9,
                  out_handler_data_recv_payload := uc_data_recv_payload i,
                  out_handler_data_recv_put := uc_data_recv_put i,
                  usb_core_sta := should_stall i,
                  usb_core_arm := (out_handler_response s i \<or> should_stall i),
                  out_handler_trigger := Some (uc_commit i) \<rparr>
      in if uc_end i then r\<lparr> next_state := IDLE \<rparr> else r)"

definition act_WAIT_DONE :: "state \<Rightarrow> inputs \<Rightarrow> outs \<Rightarrow> outs" where
  "act_WAIT_DONE s i r0 =
     (let r = r0\<lparr> stage_num := 10, usb_core_sta := False, usb_core_arm := True \<rparr>
      in if uc_end i then r\<lparr> next_state := IDLE \<rparr> else r)"

text \<open>The combinational outputs of the FSM in one cycle.\<close>

definition fsm :: "state \<Rightarrow> inputs \<Rightarrow> outs" where
  "fsm s i =
     (case stage s of
        IDLE \<Rightarrow> act_IDLE s i (outs_default s)
      | CHECK_TOK \<Rightarrow> act_CHECK_TOK s i (outs_default s)
      | DEBUG \<Rightarrow> act_DEBUG s i (outs_default s)
      | SETUP \<Rightarrow> act_SETUP s i (outs_default s)
      | CONTROL_IN \<Rightarrow> act_CONTROL_IN s i (outs_default s)
      | CONTROL_OUT \<Rightarrow> act_CONTROL_OUT s i (outs_default s)
      | WAIT_CONTROL_ACK_IN \<Rightarrow> act_WAIT_CONTROL_ACK_IN s i (outs_default s)
      | WAIT_CONTROL_ACK_OUT \<Rightarrow> act_WAIT_CONTROL_ACK_OUT s i (outs_default s)
      | IN \<Rightarrow> act_IN s i (outs_default s)
      | OUT \<Rightarrow> act_OUT s i (outs_default s)
      | WAIT_DONE \<Rightarrow> act_WAIT_DONE s i (outs_default s))"


section \<open>The event triggers\<close>


definition in_trigger :: "state \<Rightarrow> inputs \<Rightarrow> bool" where
  "in_trigger s i =
     (let is_in_packet = (uc_tok i = PID_IN);
          is_our_packet = (uc_endp i = in_epno i);
          t = False;
          t = (if \<not> usb_pullup i then True else t);
          t = (is_in_packet \<and> is_our_packet \<and> uc_commit i)
      in case in_handler_trigger (fsm s i) of Some v \<Rightarrow> v | None \<Rightarrow> t)"

definition out_trigger :: "state \<Rightarrow> inputs \<Rightarrow> bool" where
  "out_trigger s i =
     (let is_out_packet = (uc_tok i = PID_OUT);
          is_our_packet = (uc_endp i = oh_epno s);
          t = False;
          t = (if \<not> usb_pullup i then True else t);
          t = ((uc_commit i \<and> is_our_packet \<and> is_out_packet \<and> out_handler_response s i)
               \<or> out_handler_ctrl_response (fsm s i))
      in case out_handler_trigger (fsm s i) of Some v \<Rightarrow> v | None \<Rightarrow> t)"

section \<open>Register updates\<close>

text \<open>
  Each function below is the \<^verbatim>\<open>sync\<close> block of one module: \<open>s\<close> is the state of the running
  cycle, which every right-hand side reads; \<open>n\<close> collects the values that the registers
  take at the clock edge, the later of two assignments to one register winning.
\<close>

text \<open>
  \<^verbatim>\<open>TriEndpointInterface\<close>: the counters and the decoding of the SETUP payload, then the
  registers of the FSM (its state and the two \<^verbatim>\<open>NextValue\<close> targets), which the
  \<^verbatim>\<open>ResetInserter\<close> around the FSM puts back to their reset values on \<^verbatim>\<open>usb_core.usb_reset\<close>.
\<close>

definition TriEndpointInterface_sync :: "state \<Rightarrow> inputs \<Rightarrow> outs \<Rightarrow> state \<Rightarrow> state" where
  "TriEndpointInterface_sync s i r n0 =
     (let n = (if invalid_state_ce r then n0\<lparr> invalid_states := invalid_states s + 1 \<rparr> else n0);
          n = (if setup_data_byte_rst r then
                 n\<lparr> setup_data_byte := 0, setup_is_in := False, setup_data_stage := False \<rparr>
               else if setup_data_byte_ce r then
                 (let n = n\<lparr> setup_data_byte := setup_data_byte s + 1 \<rparr>
                  in if setup_data_byte s = 0 then
                       n\<lparr> setup_is_in := bit (uc_data_recv_payload i) 7 \<rparr>
                     else if setup_data_byte s = 6 then
                       (if uc_data_recv_payload i \<noteq> 0 then n\<lparr> setup_data_stage := True \<rparr> else n)
                     else if setup_data_byte s = 7 then
                       (if uc_data_recv_payload i \<noteq> 0 then n\<lparr> setup_data_stage := True \<rparr> else n)
                     else n)
               else n);
          n = (if uc_error i then n\<lparr> error_count := error_count s + 1 \<rparr> else n);
          n = n\<lparr> stage := next_state r \<rparr>;
          n = (case next_usb_core_addr r of Some v \<Rightarrow> n\<lparr> usb_core_addr := v \<rparr> | None \<Rightarrow> n);
          n = (case next_tok_waits r of Some v \<Rightarrow> n\<lparr> tok_waits := v \<rparr> | None \<Rightarrow> n)
      in if uc_usb_reset i then n\<lparr> stage := IDLE, usb_core_addr := 0, tok_waits := 0 \<rparr> else n)"

text \<open>
  \<^verbatim>\<open>SetupHandler\<close>.  \<^verbatim>\<open>buf.reset\<close> is assigned in the \<^verbatim>\<open>sync\<close> block, so it is a register: the
  FIFO sees in this cycle the value computed in the previous one.
\<close>

definition SetupHandler_sync :: "state \<Rightarrow> inputs \<Rightarrow> outs \<Rightarrow> state \<Rightarrow> state" where
  "SetupHandler_sync s i r n0 =
     (let data_recv_payload = setup_handler_data_recv_payload r;
          data_recv_put = setup_handler_data_recv_put r;
          buf_re = (setup_ctrl_re i \<and> bit (setup_ctrl_storage i) 0);
          buf_din = (if uc_tok i = PID_SETUP then data_recv_payload else 0);
          buf_we = (if uc_tok i = PID_SETUP then data_recv_put else False);
          n = n0\<lparr> sh_check_reset := uc_start i \<rparr>;
          n = (if sh_check_reset s then
                 (if uc_tok i = PID_SETUP then
                    n\<lparr> sh_epno := uc_endp i, sh_buf_reset := True,
                       sh_data_bytes := 0, sh_have_data_stage := False \<rparr>
                  else n\<lparr> sh_buf_reset := False \<rparr>)
               else n\<lparr> sh_buf_reset := False \<rparr>);
          n = (if data_recv_put then
                 (let n = n\<lparr> sh_data_bytes := sh_data_bytes s + 1 \<rparr>
                  in if data_recv_payload \<noteq> 0 then
                       (if sh_data_bytes s = 6 then n\<lparr> sh_have_data_stage := True \<rparr>
                        else if sh_data_bytes s = 7 then n\<lparr> sh_have_data_stage := True \<rparr>
                        else n)
                     else n)
               else n)
      in n\<lparr> sh_buf := fifo_step 10 (sh_buf_reset s) buf_we buf_din buf_re (sh_buf s) \<rparr>)"

text \<open>
  \<^verbatim>\<open>InHandler\<close>.  The \<^verbatim>\<open>reset\<close> of its FIFO is never driven, so it stays 0; \<^verbatim>\<open>1 << epno\<close> is
  the 16-bit vector with the one bit \<^verbatim>\<open>epno\<close> set.
\<close>

definition InHandler_sync :: "state \<Rightarrow> inputs \<Rightarrow> outs \<Rightarrow> state \<Rightarrow> state" where
  "InHandler_sync s i r n0 =
     (let epno = in_epno i;
          reset_fifo = in_reset_fifo i;
          is_in_packet = (uc_tok i = PID_IN);
          is_our_packet = (uc_endp i = epno);
          n = (if in_handler_dtb_reset r then
                 n0\<lparr> ih_dtbs := ih_dtbs s OR push_bit (unat epno) 1 \<rparr>
               else if in_ctrl_re i then
                 n0\<lparr> ih_queued := \<not> reset_fifo \<rparr>
               else if uc_commit i then
                 (let n = (if is_in_packet \<and> is_our_packet then n0\<lparr> ih_queued := False \<rparr> else n0)
                  in if usb_core_arm r \<and> \<not> usb_core_sta r then
                       n\<lparr> ih_dtbs := ih_dtbs s XOR push_bit (unat epno) 1 \<rparr>
                     else n)
               else n0)
      in n\<lparr> ih_buf := fifo_step 128 False (in_data_re i) (in_data_storage i)
                         (in_handler_data_out_advance r) (ih_buf s) \<rparr>)"

text \<open>\<^verbatim>\<open>OutHandler\<close>.  Its FIFO has no reset.\<close>

definition OutHandler_sync :: "state \<Rightarrow> inputs \<Rightarrow> outs \<Rightarrow> state \<Rightarrow> state" where
  "OutHandler_sync s i r n0 =
     (let data_recv_payload = out_handler_data_recv_payload r;
          data_recv_put = out_handler_data_recv_put r;
          buf_re = (bit (out_ctrl_storage i) 0 \<and> out_ctrl_re i);
          is_out_packet = (uc_tok i = PID_OUT);
          n = (if uc_commit i \<and> fifo_readable (oh_buf s) then n0\<lparr> oh_is_idle := True \<rparr>
               else if data_recv_put then n0\<lparr> oh_is_idle := False \<rparr>
               else n0);
          n = (if is_out_packet then n\<lparr> oh_epno := uc_endp i \<rparr> else n);
          n = (if out_ctrl_re i then n\<lparr> oh_have_data := bit (out_ctrl_storage i) 1 \<rparr> else n)
      in n\<lparr> oh_buf := fifo_step 128 False data_recv_put data_recv_payload buf_re (oh_buf s) \<rparr>)"

text \<open>One clock cycle of the whole design.\<close>

definition step :: "state \<Rightarrow> inputs \<Rightarrow> state" where
  "step s i =
     (let r = fsm s i
      in OutHandler_sync s i r
           (InHandler_sync s i r
              (SetupHandler_sync s i r
                 (TriEndpointInterface_sync s i r s))))"

text \<open>A run of the design over the inputs of consecutive cycles.\<close>

fun run :: "state \<Rightarrow> inputs list \<Rightarrow> state" where
  "run s [] = s"
| "run s (i # is) = run (step s i) is"

text \<open>The registers after reset: every register is 0 but \<^verbatim>\<open>dtbs\<close> and \<^verbatim>\<open>is_idle\<close>.\<close>

definition reset_state :: state where
  "reset_state =
     \<lparr> stage = IDLE, tok_waits = 0, usb_core_addr = 0, invalid_states = 0,
       setup_data_byte = 0, setup_is_in = False, setup_data_stage = False, error_count = 0,
       sh_check_reset = False, sh_buf_reset = False, sh_data_bytes = 0,
       sh_have_data_stage = False, sh_epno = 0, sh_buf = [],
       ih_dtbs = 0xffff, ih_queued = False, ih_buf = [],
       oh_have_data = False, oh_epno = 0, oh_is_idle = True, oh_buf = [] \<rparr>"

text \<open>
  A cycle in which the transfer core signals nothing and the CPU writes nothing, all CSR
  registers holding 0: the cycles of the examples below are updates of it.
\<close>

definition quiet :: inputs where
  "quiet =
     \<lparr> uc_tok = PID_SOF, uc_endp = 0, uc_idle = False, uc_start = False, uc_setup = False,
       uc_commit = False, uc_end = False, uc_data_end = False, uc_error = False,
       uc_usb_reset = False, uc_data_recv_payload = 0, uc_data_recv_put = False,
       uc_data_send_get = False, usb_pullup = True,
       enable_out0 = 0, enable_out1 = 0, enable_in0 = 0, enable_in1 = 0, address_storage = 0,
       setup_ctrl_storage = 0, setup_ctrl_re = False, in_data_storage = 0, in_data_re = False,
       in_ctrl_storage = 0, in_ctrl_re = False, out_ctrl_storage = 0, out_ctrl_re = False,
       debug = False, n_debug_in_progress = True, sink_data = 0, sink_valid = False,
       send_ack = False \<rparr>"

section \<open>Example cycles and traces\<close>

text \<open>
  The cycles and traces at which the theorems below are evaluated.  A SETUP transaction:
  the core signals \<^verbatim>\<open>start\<close> with the token \<^verbatim>\<open>SETUP\<close>, holds the token, and hands over the
  bytes of the DATA0 packet (8 bytes of payload and 2 of CRC) one cycle each.
\<close>

definition tok_setup :: inputs where
  "tok_setup = quiet\<lparr> uc_tok := PID_SETUP \<rparr>"

definition setup_byte :: "8 word \<Rightarrow> inputs" where
  "setup_byte b = tok_setup\<lparr> uc_data_recv_payload := b, uc_data_recv_put := True \<rparr>"

definition setup_transaction :: "8 word list \<Rightarrow> inputs list" where
  "setup_transaction bs =
     [tok_setup\<lparr> uc_start := True \<rparr>, tok_setup, tok_setup, tok_setup] @ map setup_byte bs"

text \<open>The last cycle of a SETUP transaction: the core signals \<^verbatim>\<open>setup\<close>, \<^verbatim>\<open>commit\<close> and \<^verbatim>\<open>end\<close>.\<close>

definition setup_done :: inputs where
  "setup_done = tok_setup\<lparr> uc_setup := True, uc_commit := True, uc_end := True \<rparr>"

text \<open>
  A class request with an OUT data stage of 8 bytes (\<^verbatim>\<open>wLength = 8\<close>), and
  \<^verbatim>\<open>SET_ADDRESS\<close>, which has no data stage.
\<close>

definition in_setup_with_data :: state where
  "in_setup_with_data =
     run reset_state (setup_transaction [0x21, 0x09, 0x00, 0x02, 0x00, 0x00, 0x08, 0x00, 0xAA, 0xBB])"

definition in_setup_set_address :: state where
  "in_setup_set_address =
     run reset_state (setup_transaction [0x00, 0x05, 0x07, 0x00, 0x00, 0x00, 0x00, 0x00, 0xAA, 0xBB])"

definition after_set_address :: state where
  "after_set_address = step in_setup_set_address setup_done"

text \<open>An IN token to endpoint 0 and the end of its transaction, nothing committed.\<close>

definition tok_in0 :: inputs where
  "tok_in0 = quiet\<lparr> uc_tok := PID_IN \<rparr>"


text \<open>OUT endpoint 1 enabled in \<^verbatim>\<open>enable_out0\<close>, and an OUT token to endpoint 1.\<close>

definition ex_stall :: inputs where
  "ex_stall = quiet\<lparr> uc_tok := PID_OUT, uc_endp := 1, enable_out0 := 2 \<rparr>"

text \<open>
  The CPU enables the OUT handler (\<^verbatim>\<open>OUT_CTRL.ENABLE\<close>), then the host sends one byte to
  OUT endpoint 1, which the device accepts: no IN token occurs.
\<close>

definition out1 :: inputs where
  "out1 = quiet\<lparr> uc_tok := PID_OUT, uc_endp := 1, enable_out0 := 2, out_ctrl_storage := 2 \<rparr>"

definition out_transfer :: "inputs list" where
  "out_transfer =
     [quiet\<lparr> enable_out0 := 2, out_ctrl_storage := 2, out_ctrl_re := True \<rparr>,
      out1\<lparr> uc_start := True \<rparr>,
      out1,
      out1\<lparr> uc_data_recv_payload := 0x55, uc_data_recv_put := True \<rparr>,
      out1\<lparr> uc_commit := True, uc_end := True \<rparr>]"

text \<open>The OUT handler enabled by the CPU, nothing received.\<close>

definition out_enable_write :: inputs where
  "out_enable_write = quiet\<lparr> out_ctrl_storage := 2, out_ctrl_re := True \<rparr>"

definition out_enabled :: inputs where
  "out_enabled = quiet\<lparr> uc_tok := PID_OUT, out_ctrl_storage := 2 \<rparr>"

text \<open>The token-classification stage with a token that is neither SETUP, IN nor OUT.\<close>

definition in_check_tok :: state where
  "in_check_tok = step reset_state (quiet\<lparr> uc_start := True \<rparr>)"

text \<open>
  The CPU queues a packet for IN endpoint 0, a SETUP token arrives, and the CPU writes
  \<^verbatim>\<open>IN_CTRL.RESET\<close> while the engine is in the stage \<^verbatim>\<open>SETUP\<close>.
\<close>

definition queued_in_setup :: state where
  "queued_in_setup =
     run reset_state
       ([quiet\<lparr> in_data_storage := 0x42, in_data_re := True \<rparr>,
         quiet\<lparr> in_ctrl_re := True \<rparr>] @ setup_transaction [])"

definition in_reset_write_in_setup :: inputs where
  "in_reset_write_in_setup = tok_setup\<lparr> in_ctrl_storage := 0x10, in_ctrl_re := True \<rparr>"

text \<open>
  The CPU queues a packet of one byte for IN endpoint 3 and the host reads it, which clears
  the toggle bit of endpoint 3; then a SETUP token to endpoint 0 brings the engine into the
  stage \<^verbatim>\<open>SETUP\<close>, with \<^verbatim>\<open>IN_CTRL.EP\<close> still 3.
\<close>

definition in3 :: inputs where
  "in3 = quiet\<lparr> uc_tok := PID_IN, uc_endp := 3, enable_in0 := 8, in_ctrl_storage := 3 \<rparr>"

definition in_ctrl_ep3 :: inputs where
  "in_ctrl_ep3 = tok_setup\<lparr> in_ctrl_storage := 3 \<rparr>"

definition setup_after_in3 :: state where
  "setup_after_in3 =
     run reset_state
       [quiet\<lparr> in_data_storage := 0x42, in_data_re := True \<rparr>,
        quiet\<lparr> in_ctrl_storage := 3, in_ctrl_re := True \<rparr>,
        in3\<lparr> uc_start := True \<rparr>,
        in3,
        in3\<lparr> uc_data_send_get := True \<rparr>,
        in3\<lparr> uc_commit := True, uc_end := True \<rparr>,
        in_ctrl_ep3\<lparr> uc_start := True \<rparr>,
        in_ctrl_ep3]"

text \<open>The engine in the stage \<^verbatim>\<open>OUT\<close>, after the token of \<open>out_transfer\<close>.\<close>

definition in_out_stage :: state where
  "in_out_stage = run reset_state (take 3 out_transfer)"

text \<open>
  \<^verbatim>\<open>GET_DESCRIPTOR\<close> with \<^verbatim>\<open>wLength = 18\<close>, the request of the spec's end-to-end example: an IN
  data stage follows, and the engine waits for it in the stage \<^verbatim>\<open>CONTROL_IN\<close>.  Then the
  host, instead of reading the data, sends a new SETUP transaction (\<^verbatim>\<open>SET_ADDRESS\<close>).
\<close>

definition in_control_in :: state where
  "in_control_in =
     run reset_state
       (setup_transaction [0x80, 0x06, 0x00, 0x01, 0x00, 0x00, 0x12, 0x00, 0xAA, 0xBB]
        @ [setup_done])"

definition second_setup :: "inputs list" where
  "second_setup =
     setup_transaction [0x00, 0x05, 0x07, 0x00, 0x00, 0x00, 0x00, 0x00, 0xAA, 0xBB]
     @ [setup_done]"

section \<open>Bits of the enable bitmap and of the toggle vector\<close>

lemma bit_16_nat: "bit (16::nat) k = (k = 4)"
proof -
  have "bit ((2::nat) ^ 4) k = (k = 4)"
    by (subst bit_exp_iff) simp
  then show ?thesis by simp
qed

lemma or_16_nat: "n < 16 \<Longrightarrow> (n::nat) OR 16 = n + 16"
proof -
  assume lt: "n < 16"
  have nb: "\<not> bit n 4" using lt by (simp add: bit_iff_odd)
  have "n AND 16 = 0"
    by (rule bit_eqI) (use nb in \<open>auto simp: bit_and_iff bit_16_nat\<close>)
  then show ?thesis by (simp add: disjunctive_add_eq_or)
qed

lemma unat_endp_less: "unat (w :: 4 word) < 16"
  using unsigned_less [of w, where ?'a = nat] by simp

lemma unat_eps_idx:
  "unat (eps_idx i) = unat (uc_endp i) + 16 * (if uc_tok i = PID_IN then 1 else 0)"
proof -
  have lt: "unat (uc_endp i) < 16"
    by (rule unat_endp_less)
  have a: "unat (ucast (uc_endp i) :: 5 word) = unat (uc_endp i)"
    using lt by (simp add: unsigned_ucast_eq take_bit_nat_eq_self_iff)
  show ?thesis
  proof (cases "uc_tok i = PID_IN")
    case False
    then show ?thesis by (simp add: eps_idx_def a)
  next
    case True
    then show ?thesis using or_16_nat [OF lt]
      by (simp add: eps_idx_def unsigned_or_eq a)
  qed
qed

lemma should_stall_bit:
  "should_stall i =
     (\<not> bit (enable i) (16 * (if uc_tok i = PID_IN then 1 else 0) + unat (uc_endp i)))"
  by (simp add: should_stall_def bit_simps unat_eps_idx add.commute)

text \<open>The four CSR registers in the bitmap: OUT endpoints in bits 0 to 15, IN in 16 to 31.\<close>

lemma bit_enable:
  "bit (enable i) k =
     (if k < 8 then bit (enable_out0 i) k
      else if k < 16 then bit (enable_out1 i) (k - 8)
      else if k < 24 then bit (enable_in0 i) (k - 16)
      else bit (enable_in1 i) (k - 24))"
  by (auto simp: enable_def bit_simps dest: bit_imp_le_length)

lemma bit_dtbs_or:
  "bit (w OR 2 ^ n :: 16 word) k = (bit w k \<or> (k = n \<and> n < 16))"
  by (auto simp: bit_simps dest: bit_imp_le_length)

section \<open>The outputs of the FSM, stage by stage\<close>

lemmas act_defs = act_IDLE_def act_CHECK_TOK_def
        act_DEBUG_def act_SETUP_def act_CONTROL_IN_def act_CONTROL_OUT_def
        act_WAIT_CONTROL_ACK_IN_def act_WAIT_CONTROL_ACK_OUT_def act_IN_def act_OUT_def
        act_WAIT_DONE_def

lemma fsm_dtb_reset: "in_handler_dtb_reset (fsm s i) = (stage s = SETUP)"
  by (cases "stage s")
     (simp_all add: fsm_def outs_default_def Let_def act_defs)

lemma fsm_invalid_state_ce:
  "invalid_state_ce (fsm s i) = (stage s = SETUP \<and> \<not> uc_setup i \<and> uc_end i)"
  by (cases "stage s")
     (simp_all add: fsm_def outs_default_def Let_def act_defs)


lemma fsm_setup_recv_put:
  "setup_handler_data_recv_put (fsm s i) = (stage s = SETUP \<and> uc_data_recv_put i)"
  by (cases "stage s")
     (simp_all add: fsm_def outs_default_def Let_def act_defs)

lemma fsm_setup_recv_payload:
  "setup_handler_data_recv_payload (fsm s i) =
     (if stage s = SETUP then uc_data_recv_payload i else 0)"
  by (cases "stage s")
     (simp_all add: fsm_def outs_default_def Let_def act_defs)

lemma fsm_data_out_advance:
  "in_handler_data_out_advance (fsm s i) =
     (((stage s = CONTROL_IN \<and> uc_endp i = 0 \<and> uc_tok i = PID_IN) \<or> stage s = IN)
      \<and> uc_data_send_get i)"
  by (cases "stage s")
     (simp_all add: fsm_def outs_default_def Let_def act_defs)


lemma fsm_IN_sta: "stage s = IN \<Longrightarrow> usb_core_sta (fsm s i) = should_stall i"
  by (simp add: fsm_def outs_default_def Let_def act_IN_def)

lemma fsm_OUT_sta: "stage s = OUT \<Longrightarrow> usb_core_sta (fsm s i) = should_stall i"
  by (simp add: fsm_def outs_default_def Let_def act_OUT_def)

section \<open>The registers after one cycle\<close>

text \<open>Each \<^verbatim>\<open>sync\<close> block leaves the registers of the other modules alone.\<close>

lemma OutHandler_sync_frame:
  "stage (OutHandler_sync s i r n) = stage n"
  "invalid_states (OutHandler_sync s i r n) = invalid_states n"
  "sh_check_reset (OutHandler_sync s i r n) = sh_check_reset n"
  "sh_buf_reset (OutHandler_sync s i r n) = sh_buf_reset n"
  "sh_buf (OutHandler_sync s i r n) = sh_buf n"
  "ih_dtbs (OutHandler_sync s i r n) = ih_dtbs n"
  "ih_queued (OutHandler_sync s i r n) = ih_queued n"
  "ih_buf (OutHandler_sync s i r n) = ih_buf n"
  by (simp_all add: OutHandler_sync_def Let_def)

lemma InHandler_sync_frame:
  "stage (InHandler_sync s i r n) = stage n"
  "invalid_states (InHandler_sync s i r n) = invalid_states n"
  "sh_check_reset (InHandler_sync s i r n) = sh_check_reset n"
  "sh_buf_reset (InHandler_sync s i r n) = sh_buf_reset n"
  "sh_buf (InHandler_sync s i r n) = sh_buf n"
  by (simp_all add: InHandler_sync_def Let_def)

lemma SetupHandler_sync_frame:
  "stage (SetupHandler_sync s i r n) = stage n"
  "invalid_states (SetupHandler_sync s i r n) = invalid_states n"
  "ih_dtbs (SetupHandler_sync s i r n) = ih_dtbs n"
  "ih_queued (SetupHandler_sync s i r n) = ih_queued n"
  "ih_buf (SetupHandler_sync s i r n) = ih_buf n"
  "oh_have_data (SetupHandler_sync s i r n) = oh_have_data n"
  by (simp_all add: SetupHandler_sync_def Let_def)

lemma TriEndpointInterface_sync_frame:
  "sh_check_reset (TriEndpointInterface_sync s i r n) = sh_check_reset n"
  "sh_buf_reset (TriEndpointInterface_sync s i r n) = sh_buf_reset n"
  "sh_buf (TriEndpointInterface_sync s i r n) = sh_buf n"
  "ih_dtbs (TriEndpointInterface_sync s i r n) = ih_dtbs n"
  "ih_queued (TriEndpointInterface_sync s i r n) = ih_queued n"
  "ih_buf (TriEndpointInterface_sync s i r n) = ih_buf n"
  "oh_have_data (TriEndpointInterface_sync s i r n) = oh_have_data n"
  by (simp_all add: TriEndpointInterface_sync_def Let_def split: option.splits)

lemma InHandler_sync_frame_oh:
  "oh_have_data (InHandler_sync s i r n) = oh_have_data n"
  by (simp_all add: InHandler_sync_def Let_def)


lemmas sync_frame = OutHandler_sync_frame InHandler_sync_frame InHandler_sync_frame_oh
  SetupHandler_sync_frame TriEndpointInterface_sync_frame

lemma step_stage:
  "stage (step s i) = (if uc_usb_reset i then IDLE else next_state (fsm s i))"
  by (simp add: step_def sync_frame TriEndpointInterface_sync_def Let_def split: option.splits)

lemma step_invalid_states:
  "invalid_states (step s i) =
     (if stage s = SETUP \<and> \<not> uc_setup i \<and> uc_end i then invalid_states s + 1
      else invalid_states s)"
  by (simp add: step_def sync_frame TriEndpointInterface_sync_def Let_def fsm_invalid_state_ce
        split: option.splits)

lemma step_sh_check_reset: "sh_check_reset (step s i) = uc_start i"
  by (simp add: step_def sync_frame SetupHandler_sync_def Let_def)

lemma step_sh_buf_reset:
  "sh_buf_reset (step s i) = (sh_check_reset s \<and> uc_tok i = PID_SETUP)"
  by (simp add: step_def sync_frame SetupHandler_sync_def Let_def)

lemma step_sh_buf:
  "sh_buf (step s i) =
     fifo_step 10 (sh_buf_reset s)
       (uc_tok i = PID_SETUP \<and> stage s = SETUP \<and> uc_data_recv_put i)
       (uc_data_recv_payload i)
       (setup_ctrl_re i \<and> bit (setup_ctrl_storage i) 0)
       (sh_buf s)"
  by (simp add: step_def sync_frame SetupHandler_sync_def Let_def fsm_setup_recv_put
        fsm_setup_recv_payload fifo_step_def)

lemma step_ih_queued:
  "ih_queued (step s i) =
     (if stage s = SETUP then ih_queued s
      else if in_ctrl_re i then \<not> in_reset_fifo i
      else if uc_commit i \<and> uc_tok i = PID_IN \<and> uc_endp i = in_epno i then False
      else ih_queued s)"
  by (simp add: step_def sync_frame InHandler_sync_def Let_def fsm_dtb_reset)

lemma step_ih_dtbs:
  "ih_dtbs (step s i) =
     (if stage s = SETUP then ih_dtbs s OR 2 ^ unat (in_epno i)
      else if in_ctrl_re i then ih_dtbs s
      else if uc_commit i \<and> usb_core_arm (fsm s i) \<and> \<not> usb_core_sta (fsm s i)
        then ih_dtbs s XOR 2 ^ unat (in_epno i)
      else ih_dtbs s)"
  by (simp add: step_def sync_frame InHandler_sync_def Let_def fsm_dtb_reset)

lemma step_ih_buf:
  "ih_buf (step s i) =
     fifo_step 128 False (in_data_re i) (in_data_storage i)
       (in_handler_data_out_advance (fsm s i)) (ih_buf s)"
  by (simp add: step_def sync_frame InHandler_sync_def Let_def)

lemma step_oh_have_data:
  "oh_have_data (step s i) =
     (if out_ctrl_re i then bit (out_ctrl_storage i) 1 else oh_have_data s)"
  by (simp add: step_def sync_frame OutHandler_sync_def Let_def)


section \<open>Runs\<close>

lemma run_append: "run s (xs @ ys) = run (run s xs) ys"
  by (induction xs arbitrary: s) simp_all

lemma oh_have_data_run:
  "\<forall>i\<in>set is. \<not> out_ctrl_re i \<Longrightarrow> oh_have_data (run s is) = oh_have_data s"
  by (induction "is" arbitrary: s) (simp_all add: step_oh_have_data)

lemma ih_queued_run:
  "\<not> ih_queued s \<Longrightarrow> \<forall>k\<in>set is. \<not> (in_ctrl_re k \<and> \<not> in_reset_fifo k) \<Longrightarrow>
   \<not> ih_queued (run s is)"
proof (induction "is" arbitrary: s)
  case Nil
  then show ?case by simp
next
  case (Cons k ks)
  have "\<not> ih_queued (step s k)"
    using Cons.prems by (auto simp: step_ih_queued)
  then show ?case using Cons by simp
qed

lemma sh_buf_step_subset:
  "set (sh_buf (step s i)) \<subseteq>
     set (sh_buf s) \<union> (if uc_data_recv_put i then {uc_data_recv_payload i} else {})"
proof -
  have tl: "set (tl (sh_buf s)) \<subseteq> set (sh_buf s)"
    by (cases "sh_buf s") auto
  show ?thesis
    using tl by (auto simp: step_sh_buf fifo_step_def Let_def split: if_splits)
qed

lemma sh_buf_run_subset:
  "set (sh_buf (run s is)) \<subseteq>
     set (sh_buf s) \<union> uc_data_recv_payload ` {i \<in> set is. uc_data_recv_put i}"
proof (induction "is" arbitrary: s)
  case Nil
  then show ?case by simp
next
  case (Cons i "is")
  have "set (sh_buf (run (step s i) is)) \<subseteq>
          set (sh_buf (step s i)) \<union> uc_data_recv_payload ` {k \<in> set is. uc_data_recv_put k}"
    by (rule Cons.IH)
  then show ?case
    using sh_buf_step_subset [of s i] by (auto split: if_splits)
qed

section \<open>The stall policy\<close>

text \<open>
  Claim C1, as the design has it.  The stall decision is the complement of one bit of the
  enable bitmap, read in the running cycle from the four CSR registers and from the token
  of the transfer core: no register of the design stores it, so a write to the bitmap
  acts on the next token.  The bit is the one at index \<open>16 * D + E\<close> for endpoint \<open>E\<close>
  and direction \<open>D\<close> (1 for IN): the OUT endpoints fill bits 0 to 15, the IN endpoints
  bits 16 to 31.  In the stages \<^verbatim>\<open>IN\<close> and \<^verbatim>\<open>OUT\<close> the stall line is this decision.
\<close>

theorem stall_decision_from_enable_bitmap:
  "should_stall i =
     (\<not> bit (enable i) (16 * (if uc_tok i = PID_IN then 1 else 0) + unat (uc_endp i)))
   \<and> (stage s = IN \<or> stage s = OUT \<longrightarrow> usb_core_sta (fsm s i) = should_stall i)"
proof -
  have "stage s = IN \<or> stage s = OUT \<Longrightarrow> usb_core_sta (fsm s i) = should_stall i"
    by (auto simp: fsm_IN_sta fsm_OUT_sta)
  then show ?thesis
    using should_stall_bit [of i] by blast
qed

text \<open>An OUT token to endpoint 1, enabled by bit 1 of \<^verbatim>\<open>enable_out0\<close>, is not stalled.\<close>

theorem stall_decision_from_enable_bitmap_witness:
  "stage in_out_stage = OUT \<and> \<not> usb_core_sta (fsm in_out_stage out1)"
proof -
  have st: "stage in_out_stage = OUT"
    by code_simp
  have ns: "\<not> should_stall out1"
    by (simp add: should_stall_bit out1_def quiet_def bit_enable)
  from stall_decision_from_enable_bitmap [of out1 in_out_stage] st
  have "usb_core_sta (fsm in_out_stage out1) = should_stall out1"
    by blast
  with st ns show ?thesis by simp
qed

text \<open>
  The index is not \<open>2 * E + D\<close>: with only bit 1 of the bitmap set, an OUT token to
  endpoint 1 is not stalled, while bit \<open>2 * 1 + 0\<close> of the bitmap is 0.
\<close>

theorem stall_index_counterexample:
  "should_stall ex_stall \<noteq>
     (\<not> bit (enable ex_stall)
          (2 * unat (uc_endp ex_stall) + (if uc_tok ex_stall = PID_IN then 1 else 0)))"
  by (simp add: should_stall_bit ex_stall_def quiet_def bit_enable)

section \<open>SETUP tokens\<close>

text \<open>
  The path on which a SETUP token is accepted.  When the token-classification stage
  \<^verbatim>\<open>CHECK_TOK\<close> sees a SETUP token while the core is not idle, the stall line is 0, the arm
  line is 1 and the engine is in the stage \<^verbatim>\<open>SETUP\<close> in the next cycle (in \<^verbatim>\<open>IDLE\<close> on a
  bus reset), whatever the enable bitmap and the FIFOs hold.
\<close>

lemma check_tok_acks_setup:
  assumes "stage s = CHECK_TOK" and "\<not> uc_idle i" and "uc_tok i = PID_SETUP"
  shows "\<not> usb_core_sta (fsm s i) \<and> usb_core_arm (fsm s i)
       \<and> stage (step s i) = (if uc_usb_reset i then IDLE else SETUP)"
  using assms
  by (simp add: step_stage fsm_def outs_default_def Let_def act_CHECK_TOK_def)

text \<open>
  The stage \<^verbatim>\<open>SETUP\<close> holds the stall line at 0 and the arm line at 1 in every cycle but
  the one in which the core signals \<^verbatim>\<open>setup\<close> with a data stage pending.
\<close>

lemma setup_stage_acks:
  assumes "stage s = SETUP" and "\<not> (uc_setup i \<and> setup_data_stage s)"
  shows "\<not> usb_core_sta (fsm s i) \<and> usb_core_arm (fsm s i)"
  using assms
  by (auto simp: fsm_def outs_default_def Let_def act_SETUP_def)

text \<open>
  In that one cycle the stage \<^verbatim>\<open>SETUP\<close> drives the stall line from the enable bitmap,
  under the comment that a SETUP packet may not be stalled: with the bitmap still 0 after
  reset, the stall line is asserted in the last cycle of a SETUP transaction that announces
  a data stage.
\<close>

lemma setup_stage_last_cycle_stall:
  "uc_tok setup_done = PID_SETUP \<and> stage in_setup_with_data = SETUP
   \<and> usb_core_sta (fsm in_setup_with_data setup_done)"
  by code_simp

text \<open>
  The stages \<^verbatim>\<open>CONTROL_IN\<close> and \<^verbatim>\<open>CONTROL_OUT\<close> have a branch for an IN and for an OUT
  token and none for a SETUP token: the arm line is 0, the engine stays in its stage
  (unless the bus is reset), and no byte is handed to the SETUP handler.
\<close>

lemma control_stage_ignores_setup_token:
  assumes "stage s = CONTROL_IN \<or> stage s = CONTROL_OUT" and "uc_tok i = PID_SETUP"
  shows "\<not> usb_core_arm (fsm s i) \<and> \<not> usb_core_sta (fsm s i)
       \<and> \<not> setup_handler_data_recv_put (fsm s i)
       \<and> stage (step s i) = (if uc_usb_reset i then IDLE else stage s)"
  using assms(1)
proof
  assume "stage s = CONTROL_IN"
  then show ?thesis
    using assms(2)
    by (simp add: step_stage fsm_setup_recv_put fsm_def outs_default_def Let_def
          act_CONTROL_IN_def)
next
  assume "stage s = CONTROL_OUT"
  then show ?thesis
    using assms(2)
    by (simp add: step_stage fsm_setup_recv_put fsm_def outs_default_def Let_def
          act_CONTROL_OUT_def)
qed

text \<open>
  Claim C2: every SETUP token is answered with ACK, whatever the stage of the engine, the
  enable bitmap and the FIFOs are: the stall line is never asserted and the arm line is
  asserted during the SETUP transaction.  The design at a SETUP token that arrives while
  the engine waits in \<^verbatim>\<open>CONTROL_IN\<close> for the data stage of the previous request: in the
  cycle of the new token the arm line is 0, after the whole new SETUP transaction the
  engine is still in \<^verbatim>\<open>CONTROL_IN\<close>, and the SETUP FIFO is empty, the handler having
  discarded the old record and the engine not having passed on the new one.
\<close>

theorem setup_token_in_control_in_not_acked:
  "stage in_control_in = CONTROL_IN
   \<and> map uc_tok second_setup = replicate 15 PID_SETUP
   \<and> \<not> usb_core_arm (fsm in_control_in (tok_setup\<lparr> uc_start := True \<rparr>))
   \<and> stage (run in_control_in second_setup) = CONTROL_IN
   \<and> sh_buf (run in_control_in second_setup) = []"
  by code_simp

section \<open>The response of the OUT handler\<close>

text \<open>
  Claim C3, as the design has it.  The response of the OUT handler is the conjunction of
  the bit \<^verbatim>\<open>ENABLE\<close> held in \<^verbatim>\<open>OUT_CTRL\<close> and of the register \<^verbatim>\<open>have_data\<close>, which is
  loaded with that same bit at each write of \<^verbatim>\<open>OUT_CTRL\<close> and takes no input from the OUT
  FIFO.  So after a write of \<^verbatim>\<open>OUT_CTRL\<close>, and for as long as the CPU does not write it
  again, the response to an OUT token is the bit \<^verbatim>\<open>ENABLE\<close> of that write and of the
  current cycle, whatever the FIFO holds and whatever happens on the bus: a write that
  clears \<^verbatim>\<open>ENABLE\<close> (such as one that only advances the FIFO) leaves every later OUT
  token without ACK until the CPU writes \<^verbatim>\<open>ENABLE\<close> again.
\<close>

theorem out_response_from_ctrl_writes:
  assumes "out_ctrl_re i0" and "\<forall>i\<in>set is. \<not> out_ctrl_re i"
  shows "out_handler_response (run (step s i0) is) j =
           (bit (out_ctrl_storage i0) 1 \<and> bit (out_ctrl_storage j) 1)"
proof -
  have "oh_have_data (run (step s i0) is) = oh_have_data (step s i0)"
    using assms(2) by (rule oh_have_data_run)
  also have "\<dots> = bit (out_ctrl_storage i0) 1"
    using assms(1) by (simp add: step_oh_have_data)
  finally show ?thesis
    by (simp add: out_handler_response_def)
qed

theorem out_response_from_ctrl_writes_witness:
  "out_handler_response (run (step reset_state out_enable_write) [out_enabled]) out_enabled"
proof -
  have h1: "out_ctrl_re out_enable_write"
    by (simp add: out_enable_write_def)
  have h2: "\<forall>i\<in>set [out_enabled]. \<not> out_ctrl_re i"
    by (simp add: out_enabled_def quiet_def)
  from out_response_from_ctrl_writes [OF h1 h2, of reset_state out_enabled]
  show ?thesis
    by (simp add: out_enable_write_def out_enabled_def quiet_def)
qed

text \<open>
  Once the CPU has written \<^verbatim>\<open>ENABLE\<close>, the handler answers an OUT token with its FIFO
  empty: the response is not the conjunction of "FIFO not empty" and the enable bit.
\<close>

theorem out_response_counterexample:
  "out_handler_response (step reset_state out_enable_write) out_enabled \<noteq>
     (fifo_readable (oh_buf (step reset_state out_enable_write))
      \<and> bit (out_ctrl_storage out_enabled) 1)"
  by code_simp

section \<open>The data toggle bits\<close>

text \<open>
  Claim C4 at a trace without any IN token.  The toggle vector is all ones after reset;
  the CPU enables the OUT handler and the host sends a packet to OUT endpoint 1, which
  the device accepts.  The commit of this OUT transaction flips the toggle bit of IN
  endpoint 0, the endpoint held in \<^verbatim>\<open>IN_CTRL\<close>.
\<close>

theorem out_commit_flips_in_toggle:
  "ih_dtbs reset_state = 0xffff
   \<and> map uc_tok out_transfer = [PID_SOF, PID_OUT, PID_OUT, PID_OUT, PID_OUT]
   \<and> ih_dtbs (run reset_state out_transfer) = 0xfffe"
  by code_simp

section \<open>Tokens that the classification does not know\<close>

text \<open>
  Claim C5, as the design has it.  When the stage \<^verbatim>\<open>CHECK_TOK\<close> sees, with the core not
  idle, a token that is neither SETUP, IN nor OUT, the engine returns to \<^verbatim>\<open>IDLE\<close> with the
  arm and stall lines at 0, and the counter \<^verbatim>\<open>invalid_states\<close> keeps its value.  The
  counter is incremented in one place only: in the stage \<^verbatim>\<open>SETUP\<close>, in a cycle in which
  the core signals \<^verbatim>\<open>end\<close> without \<^verbatim>\<open>setup\<close>.
\<close>

theorem check_tok_unknown_token:
  assumes "stage s = CHECK_TOK" and "\<not> uc_idle i"
    and "uc_tok i \<noteq> PID_SETUP" and "uc_tok i \<noteq> PID_IN" and "uc_tok i \<noteq> PID_OUT"
  shows "stage (step s i) = IDLE
       \<and> \<not> usb_core_arm (fsm s i) \<and> \<not> usb_core_sta (fsm s i)
       \<and> invalid_states (step s i) = invalid_states s
       \<and> invalid_states (step s' i') =
           (if stage s' = SETUP \<and> \<not> uc_setup i' \<and> uc_end i' then invalid_states s' + 1
            else invalid_states s')"
proof -
  have f: "next_state (fsm s i) = IDLE" "\<not> usb_core_arm (fsm s i)" "\<not> usb_core_sta (fsm s i)"
    using assms by (simp_all add: fsm_def outs_default_def Let_def act_CHECK_TOK_def)
  have c: "invalid_states (step s i) = invalid_states s"
    using assms(1) by (simp add: step_invalid_states)
  show ?thesis
    using f c by (simp add: step_stage step_invalid_states)
qed

theorem check_tok_unknown_token_witness:
  "stage (step in_check_tok quiet) = IDLE
   \<and> invalid_states (step in_check_tok quiet) = invalid_states in_check_tok"
proof -
  have h1: "stage in_check_tok = CHECK_TOK"
    by code_simp
  have h2: "\<not> uc_idle quiet" and h3: "uc_tok quiet \<noteq> PID_SETUP"
    and h4: "uc_tok quiet \<noteq> PID_IN" and h5: "uc_tok quiet \<noteq> PID_OUT"
    by (simp_all add: quiet_def)
  from check_tok_unknown_token [OF h1 h2 h3 h4 h5] show ?thesis by blast
qed

text \<open>A SOF token in the stage \<^verbatim>\<open>CHECK_TOK\<close> does not increment the counter.\<close>

theorem check_tok_counter_counterexample:
  "stage in_check_tok = CHECK_TOK \<and> \<not> uc_idle quiet \<and> uc_tok quiet = PID_SOF
   \<and> invalid_states (step in_check_tok quiet) \<noteq> invalid_states in_check_tok + 1"
  by code_simp

section \<open>The status stage of a control transfer without data stage\<close>

text \<open>
  Claim C6, as the design has it.  In the stages \<^verbatim>\<open>WAIT_CONTROL_ACK_IN\<close> and
  \<^verbatim>\<open>WAIT_CONTROL_ACK_OUT\<close> the arm line is the signal \<^verbatim>\<open>empty\<close> of the SETUP handler: it is
  low for as long as the SETUP FIFO holds unread bytes and high once the CPU has drained
  it; the stall line is 0 and the toggle bit 1.  The engine returns to \<^verbatim>\<open>IDLE\<close> in the
  cycle in which the FIFO is empty and the core signals \<^verbatim>\<open>end\<close> (in
  \<^verbatim>\<open>WAIT_CONTROL_ACK_IN\<close>) or \<^verbatim>\<open>data_end\<close> (in \<^verbatim>\<open>WAIT_CONTROL_ACK_OUT\<close>), or on a bus
  reset; otherwise it stays in its stage.
\<close>

theorem wait_control_ack_arm:
  assumes "stage s = WAIT_CONTROL_ACK_IN \<or> stage s = WAIT_CONTROL_ACK_OUT"
  shows "usb_core_arm (fsm s i) = setup_handler_empty s
       \<and> \<not> usb_core_sta (fsm s i) \<and> usb_core_dtb (fsm s i)
       \<and> stage (step s i) =
           (if uc_usb_reset i then IDLE
            else if setup_handler_empty s
                    \<and> (if stage s = WAIT_CONTROL_ACK_IN then uc_end i else uc_data_end i)
              then IDLE
            else stage s)"
  using assms
proof
  assume "stage s = WAIT_CONTROL_ACK_IN"
  then show ?thesis
    by (simp add: step_stage fsm_def outs_default_def Let_def act_WAIT_CONTROL_ACK_IN_def)
next
  assume "stage s = WAIT_CONTROL_ACK_OUT"
  then show ?thesis
    by (simp add: step_stage fsm_def outs_default_def Let_def act_WAIT_CONTROL_ACK_OUT_def)
qed

theorem wait_control_ack_arm_witness:
  "usb_core_arm (fsm after_set_address tok_in0) = setup_handler_empty after_set_address
   \<and> stage (step after_set_address tok_in0) = WAIT_CONTROL_ACK_OUT"
proof -
  have h: "stage after_set_address = WAIT_CONTROL_ACK_IN
         \<or> stage after_set_address = WAIT_CONTROL_ACK_OUT"
    by code_simp
  have e: "\<not> setup_handler_empty after_set_address" "\<not> uc_usb_reset tok_in0"
    "stage after_set_address = WAIT_CONTROL_ACK_OUT"
    by code_simp+
  from wait_control_ack_arm [OF h, of tok_in0] e show ?thesis by simp
qed

text \<open>
  After \<^verbatim>\<open>SET_ADDRESS\<close> the engine waits in \<^verbatim>\<open>WAIT_CONTROL_ACK_OUT\<close> with the SETUP record
  unread: the arm line is low, not high, while the FIFO is not empty.
\<close>

theorem wait_control_ack_arm_counterexample:
  "stage after_set_address = WAIT_CONTROL_ACK_OUT
   \<and> fifo_readable (sh_buf after_set_address)
   \<and> \<not> usb_core_arm (fsm after_set_address tok_in0)"
  by code_simp

section \<open>The event of the SETUP handler\<close>




section \<open>The SETUP FIFO at a new SETUP token\<close>

text \<open>
  Claim C8.  A new SETUP token is the signal \<^verbatim>\<open>start\<close> of the core followed, in the next
  cycle, by the token \<^verbatim>\<open>SETUP\<close>.  Whatever the state of the design and whatever the SETUP
  FIFO holds, the FIFO is empty two cycles after \<^verbatim>\<open>start\<close> (the reset is registered once
  in \<^verbatim>\<open>check_reset\<close> and once in \<^verbatim>\<open>buf.reset\<close>), and from then on every byte in it is a
  byte that the core has delivered after the reset: nothing of an earlier record remains.
\<close>

theorem new_setup_token_resets_fifo:
  assumes "uc_start i1" and "uc_tok i2 = PID_SETUP"
  shows "sh_buf (run s [i1, i2, i3]) = []
       \<and> set (sh_buf (run s ([i1, i2, i3] @ is)))
           \<subseteq> uc_data_recv_payload ` {i \<in> set is. uc_data_recv_put i}"
proof -
  have c: "sh_check_reset (step s i1)"
    using assms(1) by (simp add: step_sh_check_reset)
  have r: "sh_buf_reset (step (step s i1) i2)"
    using c assms(2) by (simp add: step_sh_buf_reset)
  have e: "sh_buf (run s [i1, i2, i3]) = []"
    using r by (simp add: step_sh_buf fifo_step_def)
  have "set (sh_buf (run (run s [i1, i2, i3]) is))
          \<subseteq> set (sh_buf (run s [i1, i2, i3]))
              \<union> uc_data_recv_payload ` {i \<in> set is. uc_data_recv_put i}"
    by (rule sh_buf_run_subset)
  then show ?thesis
    using e by (simp only: run_append) simp
qed

theorem new_setup_token_resets_fifo_witness:
  "length (sh_buf after_set_address) = 10
   \<and> sh_buf (run after_set_address [tok_setup\<lparr> uc_start := True \<rparr>, tok_setup, tok_setup]) = []"
proof -
  have h1: "uc_start (tok_setup\<lparr> uc_start := True \<rparr>)"
    by simp
  have h2: "uc_tok tok_setup = PID_SETUP"
    by (simp add: tok_setup_def)
  have l: "length (sh_buf after_set_address) = 10"
    by code_simp
  from new_setup_token_resets_fifo [OF h1 h2, of after_set_address tok_setup]
  show ?thesis using l by blast
qed

section \<open>The reset bit of \<open>IN_CTRL\<close>\<close>

text \<open>
  A write of \<^verbatim>\<open>IN_CTRL\<close> with the reset bit (bit 4) set that the handler takes: the engine
  is not in the stage \<^verbatim>\<open>SETUP\<close>.  It clears the flag \<^verbatim>\<open>queued\<close>; the flag stays clear, and
  the response of the IN handler is NAK, until the CPU writes \<^verbatim>\<open>IN_CTRL\<close> without the reset
  bit.  The write does not touch the IN FIFO: in a cycle in which no byte is pushed or
  popped, its content is unchanged.
\<close>

lemma in_ctrl_reset_write_outside_setup:
  assumes "in_ctrl_re i" and "bit (in_ctrl_storage i) 4" and "stage s \<noteq> SETUP"
    and "\<forall>k\<in>set is. \<not> (in_ctrl_re k \<and> \<not> bit (in_ctrl_storage k) 4)"
  shows "\<not> ih_queued (run (step s i) is)
       \<and> \<not> in_handler_response (run (step s i) is) j
       \<and> (\<not> in_data_re i \<and> \<not> uc_data_send_get i \<longrightarrow> ih_buf (step s i) = ih_buf s)"
proof -
  have q: "\<not> ih_queued (step s i)"
    using assms(1-3) by (simp add: step_ih_queued in_reset_fifo_def)
  have qs: "\<not> ih_queued (run (step s i) is)"
    using q assms(4) by (intro ih_queued_run) (simp_all add: in_reset_fifo_def)
  have b: "\<not> in_data_re i \<and> \<not> uc_data_send_get i \<Longrightarrow> ih_buf (step s i) = ih_buf s"
    by (simp add: step_ih_buf fsm_data_out_advance fifo_step_def)
  show ?thesis
    using qs b by (simp add: in_handler_response_def)
qed

text \<open>
  Claim C9: a write of \<^verbatim>\<open>IN_CTRL\<close> with the reset bit set clears the flag \<^verbatim>\<open>queued\<close>, so
  that the IN handler answers the following IN tokens with NAK, and leaves the bytes in
  the IN FIFO as they are.  The design at a write that arrives while the engine is in the
  stage \<^verbatim>\<open>SETUP\<close>: in the \<^verbatim>\<open>sync\<close> chain of the handler the branch of \<^verbatim>\<open>dtb_reset\<close> comes
  before the branch of \<^verbatim>\<open>ctrl.re\<close>, the write is dropped, the flag \<^verbatim>\<open>queued\<close> stays set and
  the handler still answers an IN token to endpoint 0.  The byte in the IN FIFO is left
  in place, as the claim says.
\<close>

theorem in_ctrl_reset_lost_in_setup:
  "stage queued_in_setup = SETUP \<and> ih_queued queued_in_setup
   \<and> in_ctrl_re in_reset_write_in_setup \<and> bit (in_ctrl_storage in_reset_write_in_setup) 4
   \<and> ih_queued (step queued_in_setup in_reset_write_in_setup)
   \<and> in_handler_response (step queued_in_setup in_reset_write_in_setup) tok_in0
   \<and> ih_buf (step queued_in_setup in_reset_write_in_setup) = [0x42]"
  by code_simp

section \<open>The toggle reset of the stage \<open>SETUP\<close>\<close>

text \<open>
  Claim C10.  In every cycle of the stage \<^verbatim>\<open>SETUP\<close>, whatever endpoint the token names,
  the engine asserts \<^verbatim>\<open>dtb_reset\<close> of the IN handler, and the toggle vector takes the bit of
  the endpoint held in \<^verbatim>\<open>IN_CTRL\<close> (the low four bits of the register) set to 1; the bit
  of the token's endpoint, when it is another one, keeps its value.
\<close>

theorem setup_stage_dtb_reset:
  assumes "stage s = SETUP"
  shows "in_handler_dtb_reset (fsm s i)
       \<and> ih_dtbs (step s i) = ih_dtbs s OR push_bit (unat (in_epno i)) 1
       \<and> bit (ih_dtbs (step s i)) (unat (in_epno i))
       \<and> (uc_endp i \<noteq> in_epno i \<longrightarrow>
            bit (ih_dtbs (step s i)) (unat (uc_endp i)) = bit (ih_dtbs s) (unat (uc_endp i)))"
proof -
  have r: "in_handler_dtb_reset (fsm s i)"
    using assms by (simp add: fsm_dtb_reset)
  have d: "ih_dtbs (step s i) = ih_dtbs s OR 2 ^ unat (in_epno i)"
    using assms by (simp add: step_ih_dtbs)
  have ne: "uc_endp i \<noteq> in_epno i \<Longrightarrow> unat (uc_endp i) \<noteq> unat (in_epno i)"
    by (simp add: word_unat_eq_iff)
  show ?thesis
    using r d unat_endp_less [of "in_epno i"] ne
    by (auto simp: bit_dtbs_or)
qed

text \<open>
  A SETUP token to endpoint 0 with \<^verbatim>\<open>IN_CTRL.EP = 3\<close> sets the toggle bit of endpoint 3.
\<close>

theorem setup_stage_dtb_reset_witness:
  "uc_endp in_ctrl_ep3 = 0 \<and> ih_dtbs setup_after_in3 = 0xfff7
   \<and> ih_dtbs (step setup_after_in3 in_ctrl_ep3) = 0xffff"
proof -
  have h: "stage setup_after_in3 = SETUP"
    by code_simp
  have e: "uc_endp in_ctrl_ep3 = 0" "ih_dtbs setup_after_in3 = 0xfff7"
    "unat (in_epno in_ctrl_ep3) = 3"
    by code_simp+
  from setup_stage_dtb_reset [OF h, of in_ctrl_ep3]
  have "ih_dtbs (step setup_after_in3 in_ctrl_ep3)
          = ih_dtbs setup_after_in3 OR push_bit (unat (in_epno in_ctrl_ep3)) 1"
    by blast
  then show ?thesis using e by simp
qed

end
